theory Spec2Isabelle
  imports Complex_Main
begin

section \<open>Shallow embedding of \<open>du/torch_utils.py\<close>\<close>

text \<open>
  Python exceptions are values: a function that may raise returns \<open>error + 'a\<close>, with
  \<open>Inl\<close> for the exception. Python and tensor floats are modelled by exact reals, so
  every statement about a numeric value is a statement of exact arithmetic; rounding is
  outside the model.
\<close>

datatype error =
    IndexError | AttributeError | AssertionError | ValueError
  | ZeroDivisionError | RuntimeError

subsection \<open>Indexed datasets\<close>

text \<open>
  An indexed dataset is an object with \<open>__len__\<close> and \<open>__getitem__\<close>. \<open>len\<close> of a
  Python object is a non-negative integer; \<open>__getitem__\<close> takes a Python integer and
  returns an item or raises.
\<close>

record 'a dataset =
  ds_len :: nat
  ds_getitem :: "int \<Rightarrow> error + 'a"

text \<open>
  Indexing a built-in Python sequence: an index in \<open>[0, len)\<close> reads from the front, an
  index in \<open>[-len, 0)\<close> reads from the end, anything else raises \<open>IndexError\<close>.
\<close>

definition list_getitem :: "'a list \<Rightarrow> int \<Rightarrow> error + 'a" where
  "list_getitem xs i =
     (if 0 \<le> i \<and> i < int (length xs) then Inr (xs ! nat i)
      else if - int (length xs) \<le> i \<and> i < 0 then Inr (xs ! nat (int (length xs) + i))
      else Inl IndexError)"

text \<open>A Python list used as a dataset.\<close>

definition list_dataset :: "'a list \<Rightarrow> 'a dataset" where
  "list_dataset xs = \<lparr>ds_len = length xs, ds_getitem = list_getitem xs\<rparr>"

subsection \<open>\<open>ConcatDataset\<close>\<close>

record 'a ConcatDataset =
  datasets :: "'a dataset list"

definition ConcatDataset_init :: "'a dataset list \<Rightarrow> 'a ConcatDataset" where
  "ConcatDataset_init ds = \<lparr>datasets = ds\<rparr>"

definition ConcatDataset_len :: "'a ConcatDataset \<Rightarrow> nat" where
  "ConcatDataset_len self = sum_list (map ds_len (datasets self))"

text \<open>
  The \<open>while\<close> loop of \<open>__getitem__\<close>, on the loop variables \<open>idx\<close> and \<open>dataset_idx\<close>.
  The condition reads \<open>self.datasets[dataset_idx]\<close> first, which raises \<open>IndexError\<close>
  when the list has no such position (only possible for an empty list, at position 0).
\<close>

function getitem_loop :: "'a dataset list \<Rightarrow> int \<Rightarrow> nat \<Rightarrow> error + 'a" where
  "getitem_loop ds idx dataset_idx =
     (if length ds \<le> dataset_idx then Inl IndexError
      else if idx \<ge> int (ds_len (ds ! dataset_idx))
              \<and> int dataset_idx < int (length ds) - 1
      then getitem_loop ds (idx - int (ds_len (ds ! dataset_idx))) (dataset_idx + 1)
      else ds_getitem (ds ! dataset_idx) idx)"
  by pat_completeness auto
termination
  by (relation "measure (\<lambda>(ds, idx, dataset_idx). length ds - dataset_idx)") auto

declare getitem_loop.simps [simp del]

definition ConcatDataset_getitem :: "'a ConcatDataset \<Rightarrow> int \<Rightarrow> error + 'a" where
  "ConcatDataset_getitem self idx = getitem_loop (datasets self) idx 0"

text \<open>
  \<open>offset ds i\<close> is the cumulative length of the datasets before position \<open>i\<close>: the
  first index of the concatenation that belongs to \<open>ds ! i\<close>.
\<close>

definition offset :: "'a dataset list \<Rightarrow> nat \<Rightarrow> int" where
  "offset ds i = int (sum_list (map ds_len (take i ds)))"

text \<open>\<open>in_range ds i idx\<close>: index \<open>idx\<close> of the concatenation falls into the range of \<open>ds ! i\<close>.\<close>

definition in_range :: "'a dataset list \<Rightarrow> nat \<Rightarrow> int \<Rightarrow> bool" where
  "in_range ds i idx \<longleftrightarrow> offset ds i \<le> idx \<and> idx < offset ds i + int (ds_len (ds ! i))"

subsection \<open>\<open>AugmentedDataset\<close>\<close>

text \<open>
  An instance has the attributes its \<open>__init__\<close> assigns. An attribute that was never
  assigned is \<open>None\<close> here, and reading it raises \<open>AttributeError\<close>. Items are tuples,
  modelled as lists of components; \<open>t + (x,)\<close> is \<open>t @ [x]\<close>.
\<close>

record 'a AugmentedDataset =
  dataset :: "'a list dataset option"
  augmented_data :: "'a list option"

definition getattr :: "'b option \<Rightarrow> error + 'b" where
  "getattr field = (case field of None \<Rightarrow> Inl AttributeError | Some v \<Rightarrow> Inr v)"

text \<open>
  \<open>__init__\<close>: the assertion, the assignment of \<open>self.dataset\<close>, then the expression
  statement \<open>self.augmented_data\<close>, which reads the attribute and drops the value.
\<close>

definition AugmentedDataset_init ::
  "'a list dataset \<Rightarrow> 'a list \<Rightarrow> error + 'a AugmentedDataset" where
  "AugmentedDataset_init ds aug =
     (if ds_len ds \<noteq> length aug then Inl AssertionError
      else let self = \<lparr>dataset = None, augmented_data = None\<rparr>;
               self = self\<lparr>dataset := Some ds\<rparr>
           in case getattr (augmented_data self) of
                Inl e \<Rightarrow> Inl e
              | Inr _ \<Rightarrow> Inr self)"

definition AugmentedDataset_len :: "'a AugmentedDataset \<Rightarrow> error + nat" where
  "AugmentedDataset_len self =
     (case getattr (dataset self) of Inl e \<Rightarrow> Inl e | Inr d \<Rightarrow> Inr (ds_len d))"

definition AugmentedDataset_getitem :: "'a AugmentedDataset \<Rightarrow> int \<Rightarrow> error + 'a list" where
  "AugmentedDataset_getitem self idx =
     (case getattr (dataset self) of Inl e \<Rightarrow> Inl e | Inr d \<Rightarrow>
      case ds_getitem d idx of Inl e \<Rightarrow> Inl e | Inr item \<Rightarrow>
      case getattr (augmented_data self) of Inl e \<Rightarrow> Inl e | Inr a \<Rightarrow>
      case list_getitem a idx of Inl e \<Rightarrow> Inl e | Inr x \<Rightarrow>
      Inr (item @ [x]))"

subsection \<open>\<open>AverageMeter\<close>\<close>

text \<open>
  The four attributes hold Python numbers (\<open>int\<close> or \<open>float\<close>); tensor values, whose
  division by zero gives \<open>nan\<close> or \<open>inf\<close> instead of raising, are outside this model.
  A method that mutates the object returns the outcome of the call together with the
  object as the call leaves it, so the state after a raise is visible too. Python's \<open>/\<close>
  on numbers raises \<open>ZeroDivisionError\<close> for a zero divisor.
\<close>

record AverageMeter =
  val :: real
  avg :: real
  sum_m :: real
  count :: real

definition AverageMeter_reset :: "AverageMeter \<Rightarrow> AverageMeter" where
  "AverageMeter_reset self = self\<lparr>val := 0, avg := 0, sum_m := 0, count := 0\<rparr>"

text \<open>
  \<open>__init__\<close> calls \<open>reset\<close>, which assigns all four attributes; whatever the record
  holds before is overwritten.
\<close>

definition AverageMeter_init :: AverageMeter where
  "AverageMeter_init = AverageMeter_reset \<lparr>val = 0, avg = 0, sum_m = 0, count = 0\<rparr>"

definition AverageMeter_update ::
  "real \<Rightarrow> real \<Rightarrow> AverageMeter \<Rightarrow> (error + unit) \<times> AverageMeter" where
  "AverageMeter_update v n self =
     (let self = self\<lparr>val := v\<rparr>;
          self = self\<lparr>sum_m := sum_m self + v * n\<rparr>;
          self = self\<lparr>count := count self + n\<rparr>
      in if count self = 0 then (Inl ZeroDivisionError, self)
         else (Inr (), self\<lparr>avg := sum_m self / count self\<rparr>))"

text \<open>A caller making a sequence of \<open>update(value, weight)\<close> calls; a raise ends it.\<close>

fun AverageMeter_updates ::
  "(real \<times> real) list \<Rightarrow> AverageMeter \<Rightarrow> (error + unit) \<times> AverageMeter" where
  "AverageMeter_updates [] self = (Inr (), self)"
| "AverageMeter_updates ((v, n) # us) self =
     (case AverageMeter_update v n self of
        (Inl e, self') \<Rightarrow> (Inl e, self')
      | (Inr _, self') \<Rightarrow> AverageMeter_updates us self')"

subsection \<open>Tensors\<close>

text \<open>
  A two-dimensional float tensor of shape \<open>(N, C)\<close>: its rows, and the number of columns
  (which the rows of an empty batch cannot tell). Every tensor of the library is
  rectangular; \<open>wf_tensor\<close> says so.
\<close>

record tensor2 =
  ncols :: nat
  rows :: "real list list"

definition nrows :: "tensor2 \<Rightarrow> nat" where
  "nrows t = length (rows t)"

definition wf_tensor :: "tensor2 \<Rightarrow> bool" where
  "wf_tensor t = list_all (\<lambda>r. length r = ncols t) (rows t)"

definition at2 :: "tensor2 \<Rightarrow> nat \<Rightarrow> nat \<Rightarrow> real" where
  "at2 t i j = rows t ! i ! j"

definition tabulate :: "nat \<Rightarrow> nat \<Rightarrow> (nat \<Rightarrow> nat \<Rightarrow> real) \<Rightarrow> tensor2" where
  "tabulate N C f = \<lparr>ncols = C, rows = map (\<lambda>i. map (\<lambda>j. f i j) [0..<C]) [0..<N]\<rparr>"

subsection \<open>\<open>accuracy\<close>\<close>

text \<open>
  \<open>max(topk)\<close>: Python's \<open>max\<close> raises \<open>ValueError\<close> on an empty sequence.
\<close>

fun py_max :: "nat list \<Rightarrow> error + nat" where
  "py_max [] = Inl ValueError"
| "py_max (x # xs) = Inr (fold max xs x)"

text \<open>
  \<open>topk(k, 1, True, True)\<close> on one row: the indices of the \<open>k\<close> largest scores, largest
  first. Equal scores are kept in index order (a stable sort by descending score); the
  library leaves that order open, and nothing proved below depends on it.
\<close>

definition topk_row :: "nat \<Rightarrow> real list \<Rightarrow> nat list" where
  "topk_row k row = take k (sort_key (\<lambda>j. - (row ! j)) [0..<length row])"

text \<open>
  \<open>correct[:k].view(-1)\<close>: \<open>correct\<close> has the layout of the transposed \<open>pred.t()\<close>, so
  a slice of \<open>r\<close> rows and \<open>N\<close> columns can be viewed as one dimension only when it has at
  most one row or at most one column (an empty slice included); otherwise \<open>view\<close> raises
  \<open>RuntimeError\<close>.
\<close>

definition view_ok :: "nat \<Rightarrow> nat \<Rightarrow> bool" where
  "view_ok r N = (r \<le> 1 \<or> N \<le> 1)"

text \<open>
  The \<open>for\<close> loop over \<open>topk\<close>. \<open>correct i\<close> is column \<open>i\<close> of the \<open>maxk\<close> by \<open>N\<close> tensor
  \<open>correct\<close>; \<open>correct[:k]\<close> keeps the first \<open>k\<close> entries of every column (all of them
  when \<open>k\<close> exceeds \<open>maxk\<close>). Each round takes the view, counts the matches over all
  columns, and scales the count by \<open>100.0 / batch_size\<close>, which raises
  \<open>ZeroDivisionError\<close> for an empty batch.
\<close>

fun accuracy_loop ::
  "(nat \<Rightarrow> bool list) \<Rightarrow> nat \<Rightarrow> nat \<Rightarrow> nat \<Rightarrow> nat list \<Rightarrow> error + real list" where
  "accuracy_loop correct N batch_size maxk [] = Inr []"
| "accuracy_loop correct N batch_size maxk (k # ks) =
     (if \<not> view_ok (min k maxk) N then Inl RuntimeError
      else
        let correct_k = real (sum_list
              (map (\<lambda>i. length (filter (\<lambda>b. b) (take k (correct i)))) [0..<N]))
        in if batch_size = 0 then Inl ZeroDivisionError
           else case accuracy_loop correct N batch_size maxk ks of
                  Inl e \<Rightarrow> Inl e
                | Inr res \<Rightarrow> Inr (correct_k * (100 / real batch_size) # res))"

text \<open>
  \<open>output\<close> is the \<open>(N, C)\<close> score tensor, \<open>target\<close> the one-dimensional tensor of
  integer labels, \<open>topk\<close> the tuple of requested \<open>k\<close>. \<open>topk\<close> of the library raises
  \<open>RuntimeError\<close> for more than \<open>C\<close> entries. \<open>pred i\<close> is column \<open>i\<close> of \<open>pred.t()\<close>.
  \<open>target.view(1, -1).expand_as(pred)\<close> needs as many labels as rows, or a single
  label, which is then used for every row.
\<close>

definition accuracy :: "tensor2 \<Rightarrow> int list \<Rightarrow> nat list \<Rightarrow> error + real list" where
  "accuracy output target topk =
     (case py_max topk of Inl e \<Rightarrow> Inl e | Inr maxk \<Rightarrow>
      let batch_size = length target in
      if ncols output < maxk then Inl RuntimeError
      else
        let pred = (\<lambda>i. topk_row maxk (rows output ! i)) in
        if \<not> (batch_size = nrows output \<or> batch_size = 1) then Inl RuntimeError
        else
          let label = (\<lambda>i. if batch_size = 1 then target ! 0 else target ! i);
              correct = (\<lambda>i. map (\<lambda>p. int p = label i) (pred i))
          in accuracy_loop correct (nrows output) batch_size maxk topk)"

text \<open>
  Every row's label is the single highest-scoring class of that row: every other class
  scores strictly less.
\<close>

definition label_is_strict_max :: "tensor2 \<Rightarrow> int list \<Rightarrow> bool" where
  "label_is_strict_max output target =
     (\<forall>i<nrows output. \<forall>c<ncols output.
        int c \<noteq> target ! i \<longrightarrow> at2 output i c < at2 output i (nat (target ! i)))"

subsection \<open>\<open>cross_entropy_loss\<close>\<close>

text \<open>
  A dimension argument of a two-dimensional tensor is one of \<open>-2, -1, 0, 1\<close>; the
  library raises \<open>IndexError\<close> for any other.
\<close>

definition norm_dim :: "int \<Rightarrow> error + nat" where
  "norm_dim axis = (if -2 \<le> axis \<and> axis < 2 then Inr (nat (axis mod 2)) else Inl IndexError)"

definition log_softmax :: "tensor2 \<Rightarrow> nat \<Rightarrow> tensor2" where
  "log_softmax t d =
     (if d = 1
      then tabulate (nrows t) (ncols t)
             (\<lambda>i j. at2 t i j - ln (sum_list (map (\<lambda>k. exp (at2 t i k)) [0..<ncols t])))
      else tabulate (nrows t) (ncols t)
             (\<lambda>i j. at2 t i j - ln (sum_list (map (\<lambda>k. exp (at2 t k j)) [0..<nrows t]))))"

text \<open>
  Broadcasting of one dimension: equal sizes, or one of them 1. The elementwise product
  raises \<open>RuntimeError\<close> when a dimension cannot be broadcast.
\<close>

definition bdim :: "nat \<Rightarrow> nat \<Rightarrow> nat option" where
  "bdim a b = (if a = b then Some a else if a = 1 then Some b
               else if b = 1 then Some a else None)"

definition tensor_mul :: "tensor2 \<Rightarrow> tensor2 \<Rightarrow> error + tensor2" where
  "tensor_mul a b =
     (case (bdim (nrows a) (nrows b), bdim (ncols a) (ncols b)) of
        (Some N, Some C) \<Rightarrow>
          Inr (tabulate N C (\<lambda>i j.
            at2 a (if nrows a = 1 then 0 else i) (if ncols a = 1 then 0 else j)
            * at2 b (if nrows b = 1 then 0 else i) (if ncols b = 1 then 0 else j)))
      | _ \<Rightarrow> Inl RuntimeError)"

definition sum_axis :: "tensor2 \<Rightarrow> nat \<Rightarrow> real list" where
  "sum_axis t d =
     (if d = 1
      then map (\<lambda>i. sum_list (map (\<lambda>j. at2 t i j) [0..<ncols t])) [0..<nrows t]
      else map (\<lambda>j. sum_list (map (\<lambda>i. at2 t i j) [0..<nrows t])) [0..<ncols t])"

text \<open>The mean of a one-dimensional tensor; of an empty one it is \<open>nan\<close>, without a raise.\<close>

datatype scalar = NaN | Scalar real

definition mean :: "real list \<Rightarrow> scalar" where
  "mean xs = (if xs = [] then NaN else Scalar (sum_list xs / real (length xs)))"

definition cross_entropy_loss ::
  "tensor2 \<Rightarrow> tensor2 \<Rightarrow> int \<Rightarrow> string \<Rightarrow> error + scalar" where
  "cross_entropy_loss logits probs axis reduction =
     (case norm_dim axis of Inl e \<Rightarrow> Inl e | Inr d \<Rightarrow>
      case tensor_mul probs (log_softmax logits d) of Inl e \<Rightarrow> Inl e | Inr weighted \<Rightarrow>
      let tmp = map uminus (sum_axis weighted d)
      in if reduction = ''mean'' then Inr (mean tmp) else Inl ValueError)"

subsection \<open>\<open>label_smoothing\<close>\<close>

text \<open>
  The target is a one-dimensional \<open>int64\<close> tensor of labels, or a float tensor of
  distributions, one per row.
\<close>

datatype target = Labels "int list" | Soft tensor2

text \<open>
  \<open>F.one_hot(target, num_classes).float()\<close>. An empty tensor needs a positive class
  count; labels must be non-negative; \<open>num_classes = -1\<close> infers the count as the largest
  label plus one, any other value must exceed every label. A violation raises
  \<open>RuntimeError\<close>.
\<close>

definition one_hot :: "int list \<Rightarrow> int \<Rightarrow> error + tensor2" where
  "one_hot labels num_classes =
     (if labels = [] then
        (if num_classes \<le> 0 then Inl RuntimeError
         else Inr \<lparr>ncols = nat num_classes, rows = []\<rparr>)
      else if list_ex (\<lambda>l. l < 0) labels then Inl RuntimeError
      else if num_classes \<noteq> -1 \<and> list_ex (\<lambda>l. num_classes \<le> l) labels
      then Inl RuntimeError
      else
        let C = (if num_classes = -1 then fold max (tl labels) (hd labels) + 1
                 else num_classes)
        in Inr \<lparr>ncols = nat C,
                rows = map (\<lambda>l. map (\<lambda>j. if int j = l then 1 else 0) [0..<nat C]) labels\<rparr>)"

definition tensor_scale :: "tensor2 \<Rightarrow> real \<Rightarrow> tensor2" where
  "tensor_scale t c = t\<lparr>rows := map (map (\<lambda>x. x * c)) (rows t)\<rparr>"

definition ones_like :: "tensor2 \<Rightarrow> tensor2" where
  "ones_like t = t\<lparr>rows := map (map (\<lambda>x. 1)) (rows t)\<rparr>"

text \<open>Elementwise sum of two tensors of the same shape.\<close>

definition tensor_add :: "tensor2 \<Rightarrow> tensor2 \<Rightarrow> tensor2" where
  "tensor_add a b = a\<lparr>rows := map2 (map2 (+)) (rows a) (rows b)\<rparr>"

text \<open>
  \<open>epsilon\<close> is a Python number, so \<open>epsilon / (num_classes - 1)\<close> raises
  \<open>ZeroDivisionError\<close> for a single class.
\<close>

definition label_smoothing :: "target \<Rightarrow> real \<Rightarrow> int \<Rightarrow> error + tensor2" where
  "label_smoothing target epsilon num_classes =
     (case (case target of Labels ls \<Rightarrow> one_hot ls num_classes | Soft t \<Rightarrow> Inr t) of
        Inl e \<Rightarrow> Inl e
      | Inr target \<Rightarrow>
          let num_classes = int (ncols target) in
          if num_classes - 1 = 0 then Inl ZeroDivisionError
          else
            let uniform_weight = epsilon / real_of_int (num_classes - 1);
                target_scaling = 1 - epsilon - uniform_weight;
                uniform = tensor_scale (ones_like target) uniform_weight
            in Inr (tensor_add (tensor_scale target target_scaling) uniform))"

text \<open>
  A valid target and its float form \<open>t\<close>: integer labels that \<open>one_hot\<close> accepts, with
  \<open>t\<close> their one-hot tensor, or a rectangular float tensor \<open>t\<close> whose rows each sum to 1.
\<close>

definition rows_sum_to_one :: "tensor2 \<Rightarrow> bool" where
  "rows_sum_to_one t = list_all (\<lambda>r. sum_list r = 1) (rows t)"

definition valid_target :: "target \<Rightarrow> int \<Rightarrow> tensor2 \<Rightarrow> bool" where
  "valid_target target num_classes t =
     (case target of
        Labels ls \<Rightarrow> one_hot ls num_classes = Inr t
      | Soft s \<Rightarrow> s = t \<and> wf_tensor t \<and> rows_sum_to_one t)"

section \<open>\<open>ConcatDataset\<close>: walking the cumulative lengths\<close>

lemma offset_0: "offset ds 0 = 0"
  by (simp add: offset_def)

lemma offset_Suc:
  "i < length ds \<Longrightarrow> offset ds (Suc i) = offset ds i + int (ds_len (ds ! i))"
  by (simp add: offset_def take_Suc_conv_app_nth)

lemma offset_length: "offset ds (length ds) = int (sum_list (map ds_len ds))"
  by (simp add: offset_def)

lemma offset_mono: "i \<le> j \<Longrightarrow> offset ds i \<le> offset ds j"
proof -
  assume "i \<le> j"
  then have "take j ds = take i ds @ take (j - i) (drop i ds)"
    by (metis le_add_diff_inverse take_add)
  then show ?thesis
    by (simp add: offset_def)
qed

lemma offset_le_total: "offset ds i \<le> int (sum_list (map ds_len ds))"
proof -
  have "offset ds i \<le> offset ds (max i (length ds))"
    by (rule offset_mono) simp
  also have "\<dots> = int (sum_list (map ds_len ds))"
    by (simp add: offset_def)
  finally show ?thesis .
qed

lemma getitem_loop_in_range:
  "dataset_idx < length ds \<Longrightarrow> offset ds dataset_idx \<le> g
   \<Longrightarrow> g < int (sum_list (map ds_len ds)) \<Longrightarrow> idx = g - offset ds dataset_idx
   \<Longrightarrow> \<exists>i. dataset_idx \<le> i \<and> i < length ds \<and> in_range ds i g
          \<and> getitem_loop ds idx dataset_idx = ds_getitem (ds ! i) (g - offset ds i)"
proof (induction ds idx dataset_idx rule: getitem_loop.induct)
  case (1 ds idx k)
  show ?case
  proof (cases "idx \<ge> int (ds_len (ds ! k)) \<and> int k < int (length ds) - 1")
    case True
    have "\<exists>i. k + 1 \<le> i \<and> i < length ds \<and> in_range ds i g
          \<and> getitem_loop ds (idx - int (ds_len (ds ! k))) (k + 1)
              = ds_getitem (ds ! i) (g - offset ds i)"
      using "1.prems" True by (intro "1.IH") (auto simp: offset_Suc)
    then obtain i where i: "k + 1 \<le> i" "i < length ds" "in_range ds i g"
      "getitem_loop ds (idx - int (ds_len (ds ! k))) (k + 1)
         = ds_getitem (ds ! i) (g - offset ds i)"
      by blast
    have "getitem_loop ds idx k = getitem_loop ds (idx - int (ds_len (ds ! k))) (k + 1)"
      using True "1.prems"(1) by (subst getitem_loop.simps) simp
    with i show ?thesis
      by (intro exI [of _ i]) simp
  next
    case False
    have stop: "getitem_loop ds idx k = ds_getitem (ds ! k) idx"
      using False "1.prems"(1) by (subst getitem_loop.simps) auto
    have "idx < int (ds_len (ds ! k))"
    proof (rule ccontr)
      assume "\<not> idx < int (ds_len (ds ! k))"
      with False "1.prems"(1) have "Suc k = length ds" by auto
      then have "offset ds k + int (ds_len (ds ! k)) = int (sum_list (map ds_len ds))"
        using offset_Suc [of k ds] offset_length [of ds] by simp
      with \<open>\<not> idx < int (ds_len (ds ! k))\<close> "1.prems" show False by simp
    qed
    then have "in_range ds k g"
      using "1.prems" by (simp add: in_range_def)
    with stop "1.prems" show ?thesis
      by (intro exI [of _ k]) simp
  qed
qed

lemma in_range_unique:
  assumes "i < length ds" "j < length ds" "in_range ds i g" "in_range ds j g"
  shows "i = j"
proof (rule ccontr)
  assume "i \<noteq> j"
  then consider "i < j" | "j < i" by linarith
  then show False
  proof cases
    case 1
    then have "offset ds (Suc i) \<le> offset ds j" by (intro offset_mono) simp
    with assms show False by (simp add: in_range_def offset_Suc)
  next
    case 2
    then have "offset ds (Suc j) \<le> offset ds i" by (intro offset_mono) simp
    with assms show False by (simp add: in_range_def offset_Suc)
  qed
qed

lemma getitem_loop_past_end:
  "dataset_idx < length ds \<Longrightarrow> int (sum_list (map ds_len ds)) \<le> g
   \<Longrightarrow> idx = g - offset ds dataset_idx
   \<Longrightarrow> getitem_loop ds idx dataset_idx
        = ds_getitem (ds ! (length ds - 1)) (g - offset ds (length ds - 1))"
proof (induction ds idx dataset_idx rule: getitem_loop.induct)
  case (1 ds idx k)
  show ?case
  proof (cases "idx \<ge> int (ds_len (ds ! k)) \<and> int k < int (length ds) - 1")
    case True
    have "getitem_loop ds (idx - int (ds_len (ds ! k))) (k + 1)
            = ds_getitem (ds ! (length ds - 1)) (g - offset ds (length ds - 1))"
      using "1.prems" True by (intro "1.IH") (auto simp: offset_Suc)
    moreover have "getitem_loop ds idx k = getitem_loop ds (idx - int (ds_len (ds ! k))) (k + 1)"
      using True "1.prems"(1) by (subst getitem_loop.simps) simp
    ultimately show ?thesis by simp
  next
    case False
    have stop: "getitem_loop ds idx k = ds_getitem (ds ! k) idx"
      using False "1.prems"(1) by (subst getitem_loop.simps) auto
    have "offset ds (Suc k) \<le> int (sum_list (map ds_len ds))"
      by (rule offset_le_total)
    with "1.prems" have "int (ds_len (ds ! k)) \<le> idx"
      by (simp add: offset_Suc)
    with False "1.prems"(1) have "k = length ds - 1" by auto
    with stop "1.prems" show ?thesis by simp
  qed
qed

lemma getitem_loop_negative:
  "ds \<noteq> [] \<Longrightarrow> idx < 0 \<Longrightarrow> getitem_loop ds idx 0 = ds_getitem (ds ! 0) idx"
  by (subst getitem_loop.simps) auto

text \<open>
  Claim C1. For a \<open>ConcatDataset\<close> over at least one dataset, \<open>length()\<close> is the sum of
  the lengths of the parts, and for every index \<open>idx\<close> in \<open>[0, length())\<close> there is a
  part \<open>i\<close> whose cumulative range contains \<open>idx\<close>, no earlier part's range does, and
  \<open>get(idx)\<close> is what part \<open>i\<close> returns for \<open>idx - offset i\<close>.
\<close>

theorem ConcatDataset_getitem_in_range:
  assumes "datasets self \<noteq> []" and "0 \<le> idx" and "idx < int (ConcatDataset_len self)"
  shows "ConcatDataset_len self = sum_list (map ds_len (datasets self))
       \<and> (\<exists>i<length (datasets self).
             in_range (datasets self) i idx
           \<and> (\<forall>j<i. \<not> in_range (datasets self) j idx)
           \<and> ConcatDataset_getitem self idx
               = ds_getitem (datasets self ! i) (idx - offset (datasets self) i))"
proof -
  let ?ds = "datasets self"
  have len: "0 < length ?ds" using assms(1) by simp
  have off: "offset ?ds 0 \<le> idx" using assms(2) by (simp add: offset_0)
  have tot: "idx < int (sum_list (map ds_len ?ds))"
    using assms(3) by (simp add: ConcatDataset_len_def)
  have eq: "idx = idx - offset ?ds 0" by (simp add: offset_0)
  from getitem_loop_in_range [OF len off tot eq]
  obtain i where i: "i < length ?ds" "in_range ?ds i idx"
    "getitem_loop ?ds idx 0 = ds_getitem (?ds ! i) (idx - offset ?ds i)"
    by blast
  have first: "\<not> in_range ?ds j idx" if "j < i" for j
  proof
    assume j: "in_range ?ds j idx"
    from that i(1) have "j < length ?ds" by simp
    then have "j = i" using i(1) j i(2) by (rule in_range_unique)
    with that show False by simp
  qed
  have "ConcatDataset_getitem self idx = ds_getitem (?ds ! i) (idx - offset ?ds i)"
    using i(3) by (simp add: ConcatDataset_getitem_def)
  with i(1,2) first have "\<exists>i<length ?ds. in_range ?ds i idx
      \<and> (\<forall>j<i. \<not> in_range ?ds j idx)
      \<and> ConcatDataset_getitem self idx = ds_getitem (?ds ! i) (idx - offset ?ds i)"
    by blast
  then show ?thesis
    by (simp add: ConcatDataset_len_def)
qed

theorem ConcatDataset_getitem_in_range_witness:
  "datasets (ConcatDataset_init [list_dataset [10::int, 20], list_dataset [], list_dataset [30]]) \<noteq> []
   \<and> (0::int) \<le> 2
   \<and> 2 < int (ConcatDataset_len
         (ConcatDataset_init [list_dataset [10::int, 20], list_dataset [], list_dataset [30]]))
   \<and> (\<exists>i<length (datasets
          (ConcatDataset_init [list_dataset [10::int, 20], list_dataset [], list_dataset [30]])).
        ConcatDataset_getitem
         (ConcatDataset_init [list_dataset [10::int, 20], list_dataset [], list_dataset [30]]) 2
        = ds_getitem (datasets
            (ConcatDataset_init [list_dataset [10::int, 20], list_dataset [], list_dataset [30]]) ! i)
            (2 - offset (datasets
            (ConcatDataset_init [list_dataset [10::int, 20], list_dataset [], list_dataset [30]])) i))
   \<and> ConcatDataset_getitem
         (ConcatDataset_init [list_dataset [10::int, 20], list_dataset [], list_dataset [30]]) 2
       = Inr 30"
proof -
  let ?S = "ConcatDataset_init [list_dataset [10::int, 20], list_dataset [], list_dataset [30]]"
  have h: "datasets ?S \<noteq> []" "(0::int) \<le> 2" "2 < int (ConcatDataset_len ?S)"
    by (simp_all add: ConcatDataset_init_def ConcatDataset_len_def list_dataset_def)
  have v: "ConcatDataset_getitem ?S 2 = Inr 30"
    by (simp add: ConcatDataset_getitem_def ConcatDataset_init_def getitem_loop.simps
        list_dataset_def list_getitem_def)
  from ConcatDataset_getitem_in_range [OF h] h v show ?thesis
    by blast
qed

section \<open>\<open>ConcatDataset\<close>: indices outside the range\<close>

lemma list_getitem_high: "int (length xs) \<le> i \<Longrightarrow> list_getitem xs i = Inl IndexError"
  by (simp add: list_getitem_def)

lemma list_getitem_low: "i < - int (length xs) \<Longrightarrow> list_getitem xs i = Inl IndexError"
  by (simp add: list_getitem_def)

lemma list_getitem_neg:
  "- int (length xs) \<le> i \<Longrightarrow> i < 0
   \<Longrightarrow> list_getitem xs i = Inr (xs ! nat (int (length xs) + i))"
  by (simp add: list_getitem_def)

text \<open>
  The claim C2 as stated, that \<open>get(idx)\<close> raises for every negative \<open>idx\<close>, fails: the
  loop does not run for a negative index and the first dataset is read at that index, so
  over the list \<open>[10, 20]\<close> the call \<open>get(-1)\<close> returns 20.
\<close>

theorem ConcatDataset_getitem_negative_counterexample:
  "ConcatDataset_getitem (ConcatDataset_init [list_dataset [10::int, 20]]) (- 1) = Inr 20"
  by (simp add: ConcatDataset_getitem_def ConcatDataset_init_def getitem_loop.simps
      list_dataset_def list_getitem_def)

text \<open>
  Claim C2, amended. Over at least one list-like dataset (Python sequence indexing),
  \<open>get(idx)\<close> raises \<open>IndexError\<close> for every \<open>idx \<ge> length()\<close> and for every
  \<open>idx < -len(D_0)\<close>; for \<open>-len(D_0) \<le> idx < 0\<close> it does not raise and returns the item
  of the first dataset at that negative index, \<open>D_0[len(D_0) + idx]\<close>.
\<close>

theorem ConcatDataset_getitem_out_of_range:
  assumes "xss \<noteq> []" and "self = ConcatDataset_init (map list_dataset xss)"
  shows "(int (ConcatDataset_len self) \<le> idx
            \<longrightarrow> ConcatDataset_getitem self idx = Inl IndexError)
       \<and> (idx < - int (length (hd xss))
            \<longrightarrow> ConcatDataset_getitem self idx = Inl IndexError)
       \<and> (- int (length (hd xss)) \<le> idx \<and> idx < 0
            \<longrightarrow> ConcatDataset_getitem self idx
                = Inr (hd xss ! nat (int (length (hd xss)) + idx)))"
proof -
  define ds where "ds = map list_dataset xss"
  have self: "datasets self = ds"
    using assms(2) by (simp add: ConcatDataset_init_def ds_def)
  have ne: "ds \<noteq> []" "0 < length ds"
    using assms(1) by (simp_all add: ds_def)
  have hd0: "ds ! 0 = list_dataset (hd xss)"
    using assms(1) by (simp add: ds_def hd_conv_nth)
  have high: "ConcatDataset_getitem self idx = Inl IndexError"
    if h: "int (ConcatDataset_len self) \<le> idx"
  proof -
    define k where "k = length ds - 1"
    have k: "k < length ds" "Suc k = length ds"
      using ne by (simp_all add: k_def)
    have tot: "int (sum_list (map ds_len ds)) \<le> idx"
      using h by (simp add: ConcatDataset_len_def self)
    have eq: "idx = idx - offset ds 0" by (simp add: offset_0)
    have "getitem_loop ds idx 0 = ds_getitem (ds ! (length ds - 1)) (idx - offset ds (length ds - 1))"
      using ne(2) tot eq by (rule getitem_loop_past_end)
    then have loop: "getitem_loop ds idx 0 = ds_getitem (ds ! k) (idx - offset ds k)"
      by (simp add: k_def)
    have "offset ds (Suc k) = int (sum_list (map ds_len ds))"
      unfolding k(2) by (rule offset_length)
    then have "offset ds k + int (ds_len (ds ! k)) \<le> idx"
      using tot offset_Suc [OF k(1)] by simp
    then have big: "int (ds_len (ds ! k)) \<le> idx - offset ds k"
      by simp
    obtain xs where xs: "ds ! k = list_dataset xs"
      using k(1) by (auto simp: ds_def)
    from big have "list_getitem xs (idx - offset ds k) = Inl IndexError"
      unfolding xs by (intro list_getitem_high) (simp add: list_dataset_def)
    with loop show ?thesis
      by (simp add: ConcatDataset_getitem_def self xs list_dataset_def)
  qed
  have neg: "ConcatDataset_getitem self idx = list_getitem (hd xss) idx" if "idx < 0"
  proof -
    have "getitem_loop ds idx 0 = ds_getitem (ds ! 0) idx"
      using ne(1) that by (rule getitem_loop_negative)
    then show ?thesis
      by (simp add: ConcatDataset_getitem_def self hd0 list_dataset_def)
  qed
  have low: "ConcatDataset_getitem self idx = Inl IndexError"
    if "idx < - int (length (hd xss))"
  proof -
    from that have "idx < 0" by simp
    with neg list_getitem_low [OF that] show ?thesis by simp
  qed
  have mid: "ConcatDataset_getitem self idx = Inr (hd xss ! nat (int (length (hd xss)) + idx))"
    if "- int (length (hd xss)) \<le> idx" "idx < 0"
    using neg [OF that(2)] list_getitem_neg [OF that] by simp
  from high low mid show ?thesis by blast
qed

theorem ConcatDataset_getitem_out_of_range_witness:
  "[[10::int, 20], [30]] \<noteq> []
   \<and> ConcatDataset_getitem (ConcatDataset_init (map list_dataset [[10::int, 20], [30]])) 3
       = Inl IndexError
   \<and> ConcatDataset_getitem (ConcatDataset_init (map list_dataset [[10::int, 20], [30]])) (- 3)
       = Inl IndexError
   \<and> ConcatDataset_getitem (ConcatDataset_init (map list_dataset [[10::int, 20], [30]])) (- 1)
       = Inr 20"
proof -
  let ?xss = "[[10::int, 20], [30]]"
  let ?S = "ConcatDataset_init (map list_dataset ?xss)"
  have ne: "?xss \<noteq> []" by simp
  have len: "int (ConcatDataset_len ?S) \<le> 3"
    by (simp add: ConcatDataset_init_def ConcatDataset_len_def list_dataset_def)
  have low: "(- 3::int) < - int (length (hd ?xss))" by simp
  have mid: "- int (length (hd ?xss)) \<le> (- 1::int) \<and> (- 1::int) < 0" by simp
  have v: "hd ?xss ! nat (int (length (hd ?xss)) + (- 1)) = 20" by simp
  from ConcatDataset_getitem_out_of_range [OF ne refl, of 3] len
  have a: "ConcatDataset_getitem ?S 3 = Inl IndexError" by blast
  from ConcatDataset_getitem_out_of_range [OF ne refl, of "- 3"] low
  have b: "ConcatDataset_getitem ?S (- 3) = Inl IndexError" by blast
  from ConcatDataset_getitem_out_of_range [OF ne refl, of "- 1"] mid
  have "ConcatDataset_getitem ?S (- 1) = Inr (hd ?xss ! nat (int (length (hd ?xss)) + (- 1)))"
    by blast
  then have c: "ConcatDataset_getitem ?S (- 1) = Inr 20"
    unfolding v .
  from ne a b c show ?thesis by blast
qed

section \<open>\<open>AverageMeter\<close>\<close>

lemma AverageMeter_update_positive:
  assumes "0 \<le> count self" and "0 < n"
  shows "AverageMeter_update v n self
           = (Inr (), \<lparr>val = v, avg = (sum_m self + v * n) / (count self + n),
                       sum_m = sum_m self + v * n, count = count self + n\<rparr>)"
  using assms by (simp add: AverageMeter_update_def Let_def)

lemma AverageMeter_updates_positive:
  "\<forall>(v, w) \<in> set us. 0 < w \<Longrightarrow> 0 \<le> count self
   \<Longrightarrow> \<exists>self'. AverageMeter_updates us self = (Inr (), self')
          \<and> sum_m self' = sum_m self + sum_list (map (\<lambda>(v, w). v * w) us)
          \<and> count self' = count self + sum_list (map snd us)
          \<and> (us \<noteq> [] \<longrightarrow> avg self' = sum_m self' / count self')"
proof (induction us arbitrary: self)
  case Nil
  then show ?case by simp
next
  case (Cons u us)
  obtain v n where u: "u = (v, n)" by (cases u)
  with Cons.prems have n: "0 < n" by simp
  let ?s = "\<lparr>val = v, avg = (sum_m self + v * n) / (count self + n),
             sum_m = sum_m self + v * n, count = count self + n\<rparr>"
  have step: "AverageMeter_update v n self = (Inr (), ?s)"
    using Cons.prems(2) n by (rule AverageMeter_update_positive)
  have "\<exists>self'. AverageMeter_updates us ?s = (Inr (), self')
          \<and> sum_m self' = sum_m ?s + sum_list (map (\<lambda>(v, w). v * w) us)
          \<and> count self' = count ?s + sum_list (map snd us)
          \<and> (us \<noteq> [] \<longrightarrow> avg self' = sum_m self' / count self')"
    using Cons.prems n by (intro Cons.IH) simp_all
  then obtain self' where s': "AverageMeter_updates us ?s = (Inr (), self')"
    "sum_m self' = sum_m ?s + sum_list (map (\<lambda>(v, w). v * w) us)"
    "count self' = count ?s + sum_list (map snd us)"
    "us \<noteq> [] \<longrightarrow> avg self' = sum_m self' / count self'"
    by blast
  have "avg self' = sum_m self' / count self'"
  proof (cases "us = []")
    case True
    with s'(1) have "self' = ?s" by simp
    then show ?thesis by simp
  next
    case False
    with s'(4) show ?thesis by simp
  qed
  moreover have "AverageMeter_updates (u # us) self = (Inr (), self')"
    using step s'(1) u by simp
  moreover have "sum_m self' = sum_m self + sum_list (map (\<lambda>(v, w). v * w) (u # us))"
    using s'(2) u by simp
  moreover have "count self' = count self + sum_list (map snd (u # us))"
    using s'(3) u by simp
  ultimately show ?case
    by blast
qed

lemma sum_list_pos_weights:
  "us \<noteq> [] \<Longrightarrow> \<forall>(v, w) \<in> set us. (0::real) < w \<Longrightarrow> 0 < sum_list (map snd us)"
proof (induction us)
  case Nil
  then show ?case by simp
next
  case (Cons u us)
  then have "0 < snd u" by auto
  moreover have "0 \<le> sum_list (map snd us)"
    using Cons.prems(2) by (intro sum_list_nonneg) (auto simp: less_imp_le)
  ultimately show ?case by simp
qed

text \<open>
  Claim C5. After a reset, a non-empty sequence of updates \<open>(value, weight)\<close> with
  positive weights returns normally, the sum of the weights is positive, and \<open>avg\<close> is
  the weighted mean: the sum of \<open>value * weight\<close> divided by the sum of the weights. The
  witness is the sequence \<open>(2,1), (4,1), (6,2)\<close>, with \<open>avg = 4.5\<close>.
\<close>

theorem AverageMeter_weighted_mean:
  assumes "us \<noteq> []" and "\<forall>(v, w) \<in> set us. 0 < w"
  shows "\<exists>self'. AverageMeter_updates us (AverageMeter_reset self) = (Inr (), self')
           \<and> 0 < sum_list (map snd us)
           \<and> avg self' = sum_list (map (\<lambda>(v, w). v * w) us) / sum_list (map snd us)"
proof -
  have "0 \<le> count (AverageMeter_reset self)"
    by (simp add: AverageMeter_reset_def)
  from AverageMeter_updates_positive [OF assms(2) this]
  obtain self' where "AverageMeter_updates us (AverageMeter_reset self) = (Inr (), self')"
    "sum_m self' = sum_m (AverageMeter_reset self) + sum_list (map (\<lambda>(v, w). v * w) us)"
    "count self' = count (AverageMeter_reset self) + sum_list (map snd us)"
    "us \<noteq> [] \<longrightarrow> avg self' = sum_m self' / count self'"
    by blast
  with assms sum_list_pos_weights [OF assms] show ?thesis
    by (intro exI [of _ self']) (simp add: AverageMeter_reset_def)
qed

theorem AverageMeter_weighted_mean_witness:
  "[(2::real, 1::real), (4, 1), (6, 2)] \<noteq> []
   \<and> list_all (\<lambda>(v, w). 0 < w) [(2::real, 1::real), (4, 1), (6, 2)]
   \<and> (\<exists>self'. AverageMeter_updates [(2, 1), (4, 1), (6, 2)] (AverageMeter_reset AverageMeter_init)
                = (Inr (), self')
              \<and> avg self' = 4.5)"
  using AverageMeter_weighted_mean [of "[(2, 1), (4, 1), (6, 2)]" AverageMeter_init]
  by simp




section \<open>Construction of an \<open>AugmentedDataset\<close>\<close>

text \<open>
  Claim C10. When the dataset and the auxiliary sequence differ in length, construction
  raises at once: the assertion is the first statement of \<open>__init__\<close>, so the result is
  \<open>AssertionError\<close> (the code's invalid-argument error) and no instance exists on which
  \<open>get\<close> could be called.
\<close>

theorem AugmentedDataset_init_length_mismatch:
  "ds_len ds \<noteq> length aug \<Longrightarrow> AugmentedDataset_init ds aug = Inl AssertionError"
  by (simp add: AugmentedDataset_init_def)

theorem AugmentedDataset_init_length_mismatch_witness:
  "ds_len (list_dataset [[1::int, 2], [3, 4]]) \<noteq> length [9::int]
   \<and> AugmentedDataset_init (list_dataset [[1::int, 2], [3, 4]]) [9] = Inl AssertionError"
  using AugmentedDataset_init_length_mismatch [of "list_dataset [[1::int, 2], [3, 4]]" "[9]"]
  by (simp add: list_dataset_def)

text \<open>
  Claim C4. When the lengths agree, construction raises \<open>AttributeError\<close>: \<open>__init__\<close>
  reads \<open>self.augmented_data\<close>, which nothing has assigned. Together with the assertion
  this means that no call of the constructor returns an instance.
\<close>

theorem AugmentedDataset_init_always_raises:
  "(ds_len ds = length aug \<longrightarrow> AugmentedDataset_init ds aug = Inl AttributeError)
   \<and> (\<forall>self. AugmentedDataset_init ds aug \<noteq> Inr self)"
  by (simp add: AugmentedDataset_init_def getattr_def)

theorem AugmentedDataset_init_always_raises_witness:
  "ds_len (list_dataset [[1::int, 2], [3, 4]]) = length [8::int, 9]
   \<and> AugmentedDataset_init (list_dataset [[1::int, 2], [3, 4]]) [8, 9] = Inl AttributeError"
  using AugmentedDataset_init_always_raises [of "list_dataset [[1::int, 2], [3, 4]]" "[8, 9]"]
  by (simp add: list_dataset_def)

text \<open>
  Claim C3. The claim describes instances built from a dataset and a sequence of the same
  length. On the code no such instance is ever built: for the one-item dataset
  \<open>[(1, 2)]\<close> and the auxiliary sequence \<open>[9]\<close> the constructor raises
  \<open>AttributeError\<close>, where the claim has \<open>length() = 1\<close> and \<open>get(0) = (1, 2, 9)\<close>.
\<close>

theorem AugmentedDataset_construction_fails:
  "AugmentedDataset_init (list_dataset [[1::int, 2]]) [9] = Inl AttributeError"
  by (simp add: AugmentedDataset_init_def getattr_def list_dataset_def)

text \<open>
  \<open>__getitem__\<close> itself does what the claim describes on an object that has both
  attributes: the slip is confined to \<open>__init__\<close>.
\<close>

lemma AugmentedDataset_getitem_assigned:
  "ds_getitem d idx = Inr item \<Longrightarrow> list_getitem a idx = Inr x
   \<Longrightarrow> AugmentedDataset_getitem \<lparr>dataset = Some d, augmented_data = Some a\<rparr> idx
        = Inr (item @ [x])"
  by (simp add: AugmentedDataset_getitem_def getattr_def)

section \<open>\<open>accuracy\<close>\<close>

lemma topk_row_take: "k \<le> maxk \<Longrightarrow> take k (topk_row maxk row) = topk_row k row"
  by (simp add: topk_row_def min_def)

lemma topk_row_all:
  "topk_row (length row) row = sort_key (\<lambda>j. - (row ! j)) [0..<length row]"
  by (simp add: topk_row_def)

lemma length_filter_distinct:
  "distinct xs \<Longrightarrow> x \<in> set xs \<Longrightarrow> length (filter (\<lambda>p. p = x) xs) = 1"
proof (induction xs)
  case Nil
  then show ?case by simp
next
  case (Cons a xs)
  show ?case
  proof (cases "a = x")
    case True
    with Cons.prems have "x \<notin> set xs" by simp
    then have "filter (\<lambda>p. p = x) xs = []" by (auto simp: filter_empty_conv)
    with True show ?thesis by simp
  next
    case False
    with Cons show ?thesis by simp
  qed
qed

lemma matches_topC:
  assumes "0 \<le> l" and "l < int (length row)"
  shows "length (filter (\<lambda>p. int p = l) (topk_row (length row) row)) = 1"
proof -
  have eq: "(\<lambda>p. int p = l) = (\<lambda>p. p = nat l)"
    using assms(1) by (intro ext) auto
  have "distinct (sort_key (\<lambda>j. - (row ! j)) [0..<length row])" by simp
  moreover have "nat l \<in> set (sort_key (\<lambda>j. - (row ! j)) [0..<length row])"
    using assms by simp
  ultimately show ?thesis
    unfolding topk_row_all eq by (rule length_filter_distinct)
qed

lemma sorted_map_hd_le:
  "sorted (map f xs) \<Longrightarrow> y \<in> set xs \<Longrightarrow> f (hd xs) \<le> f y"
  by (cases xs) auto

lemma topk_row_top1:
  assumes l: "l < length row"
    and strict: "\<forall>c<length row. c \<noteq> l \<longrightarrow> row ! c < row ! l"
  shows "topk_row 1 row = [l]"
proof -
  let ?f = "\<lambda>j. - (row ! j)"
  let ?xs = "sort_key ?f [0..<length row]"
  have len: "length ?xs = length row" by simp
  from l have "0 < length ?xs" by auto
  then have ne: "?xs \<noteq> []" by (metis length_greater_0_conv)
  have mem: "l \<in> set ?xs" using l by simp
  have "hd ?xs \<in> set ?xs" using ne by (rule hd_in_set)
  then have hd_lt: "hd ?xs < length row" by simp
  have "?f (hd ?xs) \<le> ?f l"
    using sorted_sort_key mem by (rule sorted_map_hd_le)
  then have "row ! l \<le> row ! hd ?xs" by simp
  with strict hd_lt have "hd ?xs = l"
    by (metis not_le)
  moreover have "take 1 ?xs = [hd ?xs]"
    using ne by (cases ?xs) simp_all
  ultimately show ?thesis
    by (simp add: topk_row_def)
qed

lemma matches_top1:
  assumes "0 \<le> l" and "l < int (length row)"
    and "\<forall>c<length row. int c \<noteq> l \<longrightarrow> row ! c < row ! nat l"
  shows "length (filter (\<lambda>p. int p = l) (topk_row 1 row)) = 1"
proof -
  have "topk_row 1 row = [nat l]"
  proof (rule topk_row_top1)
    show "nat l < length row" using assms(1,2) by simp
    show "\<forall>c<length row. c \<noteq> nat l \<longrightarrow> row ! c < row ! nat l"
      using assms(1,3) by auto
  qed
  with assms(1) show ?thesis by simp
qed

lemma py_max_Inr: "topk \<noteq> [] \<Longrightarrow> py_max topk = Inr (Max (set topk))"
  by (cases topk) (simp_all add: Max.set_eq_fold [symmetric])

lemma count_matches:
  "length (filter (\<lambda>b. b) (take k (map P xs))) = length (filter P (take k xs))"
  by (simp add: take_map filter_map comp_def)

lemma sum_list_const_upt:
  "(\<And>i. i < n \<Longrightarrow> f i = (1::nat)) \<Longrightarrow> sum_list (map f [0..<n]) = n"
  by (induction n) simp_all

lemma accuracy_loop_Inr:
  "batch_size \<noteq> 0 \<Longrightarrow> \<forall>k \<in> set ks. view_ok (min k maxk) N
   \<Longrightarrow> accuracy_loop correct N batch_size maxk ks =
        Inr (map (\<lambda>k. real (sum_list
               (map (\<lambda>i. length (filter (\<lambda>b. b) (take k (correct i)))) [0..<N]))
             * (100 / real batch_size)) ks)"
  by (induction ks) (simp_all add: Let_def)

lemma accuracy_loop_view_raises:
  "batch_size \<noteq> 0 \<Longrightarrow> \<exists>k \<in> set ks. \<not> view_ok (min k maxk) N
   \<Longrightarrow> accuracy_loop correct N batch_size maxk ks = Inl RuntimeError"
proof (induction ks)
  case Nil
  then show ?case by simp
next
  case (Cons k ks)
  show ?case
  proof (cases "view_ok (min k maxk) N")
    case True
    with Cons.prems have "\<exists>k \<in> set ks. \<not> view_ok (min k maxk) N" by auto
    with Cons.IH Cons.prems(1)
    have "accuracy_loop correct N batch_size maxk ks = Inl RuntimeError" by simp
    with True Cons.prems(1) show ?thesis by (simp add: Let_def)
  next
    case False
    then show ?thesis by simp
  qed
qed

lemma accuracy_enters_loop:
  assumes mx: "py_max topk = Inr maxk" and le: "maxk \<le> ncols output"
    and len: "length target = nrows output"
  shows "accuracy output target topk =
     accuracy_loop
       (\<lambda>i. map (\<lambda>p. int p = (if nrows output = 1 then target ! 0 else target ! i))
              (topk_row maxk (rows output ! i)))
       (nrows output) (nrows output) maxk topk"
proof -
  have nl: "(ncols output < maxk) = False" using le by simp
  show ?thesis
    by (simp only: accuracy_def mx len sum.case Let_def nl simp_thms if_False if_True)
qed

lemma accuracy_unfold:
  assumes mx: "py_max topk = Inr maxk" and le: "maxk \<le> ncols output"
    and pos: "0 < nrows output" and len: "length target = nrows output"
    and view: "\<forall>k \<in> set topk. view_ok (min k maxk) (nrows output)"
  shows "accuracy output target topk =
     Inr (map (\<lambda>k. real (sum_list (map (\<lambda>i. length (filter (\<lambda>b. b)
            (take k (map (\<lambda>p. int p = target ! i) (topk_row maxk (rows output ! i))))))
            [0..<nrows output])) * (100 / real (nrows output))) topk)"
proof -
  have nz: "nrows output \<noteq> 0" using pos by simp
  have label: "(if nrows output = 1 then target ! 0 else target ! i) = target ! i"
    if "i \<in> set [0..<nrows output]" for i
    using that by auto
  have E: "map (\<lambda>i. length (filter (\<lambda>b. b) (take k (map (\<lambda>p. int p =
            (if nrows output = 1 then target ! 0 else target ! i))
               (topk_row maxk (rows output ! i)))))) [0..<nrows output]
      = map (\<lambda>i. length (filter (\<lambda>b. b) (take k (map (\<lambda>p. int p = target ! i)
               (topk_row maxk (rows output ! i)))))) [0..<nrows output]" for k
    by (rule map_cong [OF refl]) (simp only: label)
  show ?thesis
    by (simp only: accuracy_enters_loop [OF mx le len] accuracy_loop_Inr [OF nz view] E)
qed

text \<open>
  Where every view succeeds (each \<open>k\<close> at most 1, or a single row), the function does
  what it is meant to: for a rectangular score tensor with \<open>N > 0\<close> rows, \<open>N\<close> labels in
  \<open>[0, C)\<close> and a non-empty tuple of values \<open>k \<le> C\<close> it returns one percentage for each
  \<open>k\<close>; the one for \<open>k = C\<close> is 100 whatever the scores are, and the one for \<open>k = 1\<close> is
  100 when every row's label is its single highest score.
\<close>

lemma accuracy_all_correct_if_viewable:
  assumes wf: "wf_tensor output"
    and N: "0 < nrows output" "length target = nrows output"
    and labels: "\<forall>i<nrows output. 0 \<le> target ! i \<and> target ! i < int (ncols output)"
    and ks: "topk \<noteq> []" "\<forall>k \<in> set topk. k \<le> ncols output"
    and view: "\<forall>k \<in> set topk. k \<le> 1 \<or> nrows output \<le> 1"
  shows "\<exists>res. accuracy output target topk = Inr res \<and> length res = length topk
           \<and> (\<forall>j<length topk.
                 topk ! j = ncols output \<or> (topk ! j = 1 \<and> label_is_strict_max output target)
                 \<longrightarrow> res ! j = 100)"
proof -
  define maxk where "maxk = Max (set topk)"
  define cnt where "cnt = (\<lambda>k. sum_list (map (\<lambda>i. length (filter (\<lambda>b. b)
            (take k (map (\<lambda>p. int p = target ! i) (topk_row maxk (rows output ! i))))))
            [0..<nrows output]))"
  define res where "res = map (\<lambda>k. real (cnt k) * (100 / real (nrows output))) topk"
  have maxk_in: "maxk \<in> set topk"
    unfolding maxk_def using ks(1) by (intro Max_in) simp_all
  then have maxk_le: "maxk \<le> ncols output" using ks(2) by blast
  have le_maxk: "k \<le> maxk" if "k \<in> set topk" for k
    unfolding maxk_def using that by (intro Max_ge) simp_all
  have view': "\<forall>k \<in> set topk. view_ok (min k maxk) (nrows output)"
    using view le_maxk by (auto simp: view_ok_def min_def)
  have "py_max topk = Inr maxk"
    unfolding maxk_def using ks(1) by (rule py_max_Inr)
  then have acc: "accuracy output target topk = Inr res"
    unfolding res_def cnt_def using maxk_le N view' by (rule accuracy_unfold)
  have row_len: "length (rows output ! i) = ncols output" if "i < nrows output" for i
    using wf that by (simp add: wf_tensor_def nrows_def list_all_length)
  have inner: "length (filter (\<lambda>b. b)
        (take k (map (\<lambda>p. int p = target ! i) (topk_row maxk (rows output ! i)))))
      = length (filter (\<lambda>p. int p = target ! i) (topk_row k (rows output ! i)))"
    if "k \<in> set topk" for k i
    using le_maxk [OF that] by (simp only: count_matches topk_row_take)
  have full: "cnt k = nrows output"
    if k: "k \<in> set topk"
      and hit: "k = ncols output \<or> (k = 1 \<and> label_is_strict_max output target)" for k
    unfolding cnt_def
  proof (rule sum_list_const_upt)
    fix i assume i: "i < nrows output"
    let ?row = "rows output ! i"
    from labels i have l: "0 \<le> target ! i" "target ! i < int (length ?row)"
      by (simp_all add: row_len)
    from hit have "length (filter (\<lambda>p. int p = target ! i) (topk_row k ?row)) = 1"
    proof
      assume "k = ncols output"
      then have "k = length ?row" using i by (simp add: row_len)
      with l show ?thesis by (simp only: matches_topC)
    next
      assume h: "k = 1 \<and> label_is_strict_max output target"
      then have "\<forall>c<length ?row. int c \<noteq> target ! i \<longrightarrow> ?row ! c < ?row ! nat (target ! i)"
        using i by (simp add: label_is_strict_max_def at2_def row_len)
      with l h show ?thesis by (simp only: matches_top1)
    qed
    then show "length (filter (\<lambda>b. b)
        (take k (map (\<lambda>p. int p = target ! i) (topk_row maxk ?row)))) = 1"
      by (simp only: inner [OF k])
  qed
  have "res ! j = 100"
    if j: "j < length topk"
      and hit: "topk ! j = ncols output \<or> (topk ! j = 1 \<and> label_is_strict_max output target)"
    for j
  proof -
    from j have "topk ! j \<in> set topk" by simp
    then have "cnt (topk ! j) = nrows output" using hit by (rule full)
    then show ?thesis
      using j N(1) by (simp add: res_def)
  qed
  moreover have "length res = length topk" by (simp add: res_def)
  ultimately show ?thesis using acc by blast
qed

text \<open>
  Where a view fails, the call raises: with at least two rows, any requested \<open>k \<ge> 2\<close>
  ends the call in \<open>RuntimeError\<close>.
\<close>

lemma accuracy_view_raises:
  assumes ks: "\<forall>k \<in> set topk. k \<le> ncols output" and big: "\<exists>k \<in> set topk. 2 \<le> k"
    and N: "2 \<le> nrows output" "length target = nrows output"
  shows "accuracy output target topk = Inl RuntimeError"
proof -
  from big have ne: "topk \<noteq> []" by auto
  define maxk where "maxk = Max (set topk)"
  have maxk_in: "maxk \<in> set topk"
    unfolding maxk_def using ne by (intro Max_in) simp_all
  then have maxk_le: "maxk \<le> ncols output" using ks by blast
  have le_maxk: "k \<le> maxk" if "k \<in> set topk" for k
    unfolding maxk_def using that by (intro Max_ge) simp_all
  from big obtain k where k: "k \<in> set topk" "2 \<le> k" by blast
  with le_maxk N(1) have "\<not> view_ok (min k maxk) (nrows output)"
    by (auto simp: view_ok_def min_def)
  with k(1) have bad: "\<exists>k \<in> set topk. \<not> view_ok (min k maxk) (nrows output)" by blast
  have nz: "nrows output \<noteq> 0" using N(1) by simp
  have mx: "py_max topk = Inr maxk"
    unfolding maxk_def using ne by (rule py_max_Inr)
  show ?thesis
    by (simp only: accuracy_enters_loop [OF mx maxk_le N(2)] accuracy_loop_view_raises [OF nz bad])
qed

text \<open>
  Claim C7. The claim has \<open>accuracy\<close> return 100 for \<open>K = C\<close> on every non-empty batch
  with valid labels. On the code this fails as soon as the batch has two rows and
  \<open>C \<ge> 2\<close>: for the scores \<open>[[0.1, 0.9], [0.8, 0.2]]\<close> with labels \<open>[1, 0]\<close> the call with
  \<open>topk = (2,)\<close> raises \<open>RuntimeError\<close> at \<open>correct[:2].view(-1)\<close>, where the claim has
  100. On the same batch \<open>topk = (1,)\<close> returns 100, as the claim says.
\<close>

theorem accuracy_topC_raises:
  "accuracy \<lparr>ncols = 2, rows = [[1 / 10, 9 / 10], [8 / 10, 2 / 10]]\<rparr> [1, 0] [2]
     = Inl RuntimeError
   \<and> accuracy \<lparr>ncols = 2, rows = [[1 / 10, 9 / 10], [8 / 10, 2 / 10]]\<rparr> [1, 0] [1]
     = Inr [100]"
  by (simp add: accuracy_def topk_row_def nrows_def view_ok_def upt_rec)

text \<open>The example of the specification: labels \<open>[1, 1]\<close> give a top-1 accuracy of 50.\<close>

lemma accuracy_example:
  "accuracy \<lparr>ncols = 2, rows = [[1 / 10, 9 / 10], [8 / 10, 2 / 10]]\<rparr> [1, 1] [1] = Inr [50]"
  by (simp add: accuracy_def topk_row_def nrows_def view_ok_def upt_rec)

section \<open>\<open>label_smoothing\<close>\<close>

lemma sum_list_indicator:
  "sum_list (map (\<lambda>j. if j = k then 1 else 0) [0..<n]) = (if k < n then 1 else (0::real))"
  by (induction n) auto

lemma one_hot_row:
  assumes "0 \<le> l" and "l < int C"
  shows "sum_list (map (\<lambda>j. if int j = l then 1 else 0) [0..<C]) = (1::real)"
proof -
  have "(\<lambda>j. if int j = l then 1 else (0::real)) = (\<lambda>j. if j = nat l then 1 else 0)"
    using assms(1) by (intro ext) auto
  then show ?thesis
    using assms by (simp add: sum_list_indicator)
qed

lemma fold_max_ge: "x \<in> set (y # ys) \<Longrightarrow> x \<le> fold max ys (y::int)"
  by (metis List.finite_set Max.set_eq_fold Max_ge)

lemma one_hot_valid:
  assumes "one_hot ls num_classes = Inr t"
  shows "wf_tensor t" and "rows_sum_to_one t" and "nrows t = length ls"
proof -
  show "wf_tensor t" "nrows t = length ls"
    using assms
    by (auto simp: one_hot_def wf_tensor_def nrows_def list_all_iff Let_def split: if_splits)
  show "rows_sum_to_one t"
  proof (cases "ls = []")
    case True
    with assms show ?thesis
      by (auto simp: one_hot_def rows_sum_to_one_def split: if_splits)
  next
    case False
    define C where "C = (if num_classes = - 1 then fold max (tl ls) (hd ls) + 1 else num_classes)"
    from assms False have nonneg: "\<forall>l \<in> set ls. 0 \<le> l"
      by (auto simp: one_hot_def list_ex_iff split: if_splits)
    have below: "\<forall>l \<in> set ls. l < C"
    proof (cases "num_classes = - 1")
      case True
      have "l \<le> fold max (tl ls) (hd ls)" if "l \<in> set ls" for l
        using that False fold_max_ge [of l "hd ls" "tl ls"] by simp
      then show ?thesis using True by (auto simp: C_def intro: le_less_trans)
    next
      case nc: False
      with assms False show ?thesis
        by (auto simp: one_hot_def list_ex_iff C_def split: if_splits)
    qed
    from assms False have t: "rows t = map (\<lambda>l. map (\<lambda>j. if int j = l then 1 else 0) [0..<nat C]) ls"
      by (auto simp: one_hot_def C_def Let_def split: if_splits)
    have "sum_list (map (\<lambda>j. if int j = l then 1 else 0) [0..<nat C]) = (1::real)"
      if "l \<in> set ls" for l
      using that nonneg below by (intro one_hot_row) auto
    then show ?thesis
      by (simp add: rows_sum_to_one_def t list_all_iff)
  qed
qed

lemma map2_same: "map2 f (map g xs) (map h xs) = map (\<lambda>x. f (g x) (h x)) xs"
  by (induction xs) simp_all

lemma smoothed_rows:
  "rows (tensor_add (tensor_scale t s) (tensor_scale (ones_like t) u))
     = map (map (\<lambda>x. x * s + u)) (rows t)"
  by (simp add: tensor_add_def tensor_scale_def ones_like_def map2_same comp_def)

lemma smoothed_ncols:
  "ncols (tensor_add (tensor_scale t s) (tensor_scale (ones_like t) u)) = ncols t"
  by (simp add: tensor_add_def tensor_scale_def)

lemma sum_list_affine:
  "sum_list (map (\<lambda>x. x * s + u) r) = sum_list r * s + real (length r) * (u::real)"
  by (induction r) (simp_all add: algebra_simps)

lemma smoothing_weights:
  assumes "2 \<le> C"
  shows "(1 - e - e / real_of_int (int C - 1)) + real C * (e / real_of_int (int C - 1)) = 1"
proof -
  define d where "d = real C - 1"
  have ne: "d \<noteq> 0" using assms by (simp add: d_def)
  have C: "real C = d + 1" by (simp add: d_def)
  have "(1 - e - e / d) + (d + 1) * (e / d) = 1"
    using ne by (simp add: field_simps)
  then show ?thesis
    by (simp add: C)
qed

text \<open>
  Claim C8. For a valid target with \<open>C \<ge> 2\<close> classes and any \<open>epsilon\<close> (in particular
  any in \<open>[0, 1)\<close>), \<open>label_smoothing\<close> returns a tensor of the same shape in which every
  row sums to 1, since \<open>target_scaling + C * uniform_weight = 1\<close>; with \<open>epsilon = 0\<close>
  the result is the target itself (its one-hot form for integer labels).
\<close>

theorem label_smoothing_distribution:
  assumes "valid_target target num_classes t" and "2 \<le> ncols t"
  shows "\<exists>out. label_smoothing target epsilon num_classes = Inr out
           \<and> ncols out = ncols t \<and> nrows out = nrows t
           \<and> wf_tensor out \<and> rows_sum_to_one out
           \<and> (epsilon = 0 \<longrightarrow> out = t)"
proof -
  have conv: "(case target of Labels ls \<Rightarrow> one_hot ls num_classes | Soft s \<Rightarrow> Inr s) = Inr t"
    using assms(1) by (simp add: valid_target_def split: target.splits)
  have wf: "wf_tensor t" and one: "rows_sum_to_one t"
    using assms(1) one_hot_valid(1,2) [of _ num_classes t]
    by (auto simp: valid_target_def split: target.splits)
  define u where "u = epsilon / real_of_int (int (ncols t) - 1)"
  define s where "s = 1 - epsilon - u"
  define out where "out = tensor_add (tensor_scale t s) (tensor_scale (ones_like t) u)"
  have ne: "int (ncols t) - 1 \<noteq> 0" using assms(2) by simp
  have res: "label_smoothing target epsilon num_classes = Inr out"
    unfolding label_smoothing_def conv using ne
    by (simp add: Let_def out_def s_def u_def)
  have rws: "rows out = map (map (\<lambda>x. x * s + u)) (rows t)"
    unfolding out_def by (rule smoothed_rows)
  have nc: "ncols out = ncols t"
    unfolding out_def by (rule smoothed_ncols)
  have nr: "nrows out = nrows t"
    by (simp add: nrows_def rws)
  have wf_out: "wf_tensor out"
    using wf by (simp add: wf_tensor_def rws nc list_all_iff)
  have "sum_list (map (\<lambda>x. x * s + u) r) = 1" if "r \<in> set (rows t)" for r
  proof -
    from that wf one have "length r = ncols t" "sum_list r = 1"
      by (simp_all add: wf_tensor_def rows_sum_to_one_def list_all_iff)
    then have "sum_list (map (\<lambda>x. x * s + u) r) = s + real (ncols t) * u"
      by (simp add: sum_list_affine)
    also have "\<dots> = 1"
      unfolding s_def u_def using assms(2) by (rule smoothing_weights)
    finally show ?thesis .
  qed
  then have sum_out: "rows_sum_to_one out"
    by (simp add: rows_sum_to_one_def rws list_all_iff)
  have "out = t" if "epsilon = 0"
  proof -
    from that have "u = 0" "s = 1" by (simp_all add: u_def s_def)
    then have "rows out = rows t" by (simp add: rws)
    with nc show ?thesis by simp
  qed
  with res nc nr wf_out sum_out show ?thesis by blast
qed

theorem label_smoothing_distribution_witness:
  "valid_target (Labels [0, 2]) 3 \<lparr>ncols = 3, rows = [[1, 0, 0], [0, 0, 1]]\<rparr>
   \<and> 2 \<le> ncols \<lparr>ncols = 3, rows = [[1, 0, 0], [0, 0, 1]]\<rparr>
   \<and> (\<exists>out. label_smoothing (Labels [0, 2]) (1 / 10) 3 = Inr out
          \<and> ncols out = 3 \<and> rows_sum_to_one out)
   \<and> label_smoothing (Labels [0, 2]) 0 3 = Inr \<lparr>ncols = 3, rows = [[1, 0, 0], [0, 0, 1]]\<rparr>
   \<and> label_smoothing (Labels [0, 2]) (1 / 10) 3
       = Inr \<lparr>ncols = 3, rows = [[9 / 10, 1 / 20, 1 / 20], [1 / 20, 1 / 20, 9 / 10]]\<rparr>"
proof -
  let ?t = "\<lparr>ncols = 3, rows = [[1, 0, 0], [0, 0, 1]]\<rparr>"
  have oh: "one_hot [0, 2] 3 = Inr ?t"
    by (simp add: one_hot_def upt_rec)
  have v: "valid_target (Labels [0, 2]) 3 ?t"
    by (simp add: valid_target_def oh)
  have c: "2 \<le> ncols ?t" by simp
  have e: "label_smoothing (Labels [0, 2]) (1 / 10) 3
       = Inr \<lparr>ncols = 3, rows = [[9 / 10, 1 / 20, 1 / 20], [1 / 20, 1 / 20, 9 / 10]]\<rparr>"
    by (simp add: label_smoothing_def oh tensor_add_def tensor_scale_def ones_like_def Let_def)
  from label_smoothing_distribution [OF v c, of "1 / 10"]
  have a: "\<exists>out. label_smoothing (Labels [0, 2]) (1 / 10) 3 = Inr out
          \<and> ncols out = 3 \<and> rows_sum_to_one out"
    by auto
  from label_smoothing_distribution [OF v c, of 0]
  have b: "label_smoothing (Labels [0, 2]) 0 3 = Inr ?t"
    by auto
  from v c a b e show ?thesis by blast
qed

section \<open>\<open>cross_entropy_loss\<close>\<close>

lemma nrows_tabulate: "nrows (tabulate N C f) = N"
  by (simp add: nrows_def tabulate_def)

lemma ncols_tabulate: "ncols (tabulate N C f) = C"
  by (simp add: tabulate_def)

lemma shape_log_softmax:
  "nrows (log_softmax t d) = nrows t" "ncols (log_softmax t d) = ncols t"
  by (simp_all add: log_softmax_def nrows_tabulate ncols_tabulate)

lemma norm_dim_isl: "isl (norm_dim axis) \<longleftrightarrow> \<not> (- 2 \<le> axis \<and> axis < 2)"
  by (simp add: norm_dim_def)

lemma tensor_mul_isl:
  "isl (tensor_mul a b) \<longleftrightarrow> bdim (nrows a) (nrows b) = None \<or> bdim (ncols a) (ncols b) = None"
  by (auto simp: tensor_mul_def split: option.splits)

text \<open>
  Claim C9. For two-dimensional logits and probabilities of the same shape and an axis
  that names one of their two dimensions, \<open>cross_entropy_loss\<close> raises exactly when the
  reduction is not \<open>"mean"\<close>, and what it raises then is \<open>ValueError\<close>: only the
  \<open>"mean"\<close> path is implemented.
\<close>

theorem cross_entropy_loss_raises_iff_not_mean:
  assumes shape: "nrows probs = nrows logits" "ncols probs = ncols logits"
    and ax: "- 2 \<le> axis" "axis < 2"
  shows "(isl (cross_entropy_loss logits probs axis reduction) \<longleftrightarrow> reduction \<noteq> ''mean'')
       \<and> (reduction \<noteq> ''mean''
            \<longrightarrow> cross_entropy_loss logits probs axis reduction = Inl ValueError)"
proof -
  obtain d where d: "norm_dim axis = Inr d"
    using ax by (simp add: norm_dim_def)
  have "\<not> isl (tensor_mul probs (log_softmax logits d))"
    unfolding tensor_mul_isl by (simp add: shape_log_softmax shape bdim_def)
  then obtain w where w: "tensor_mul probs (log_softmax logits d) = Inr w"
    by (cases "tensor_mul probs (log_softmax logits d)") simp_all
  show ?thesis
    by (simp add: cross_entropy_loss_def d w)
qed

theorem cross_entropy_loss_raises_iff_not_mean_witness:
  "nrows \<lparr>ncols = 2, rows = [[1 / 2, 1 / 2]]\<rparr> = nrows \<lparr>ncols = 2, rows = [[0, 1]]\<rparr>
   \<and> ncols \<lparr>ncols = 2, rows = [[1 / 2, 1 / 2]]\<rparr> = ncols \<lparr>ncols = 2, rows = [[0, 1]]\<rparr>
   \<and> (- 2::int) \<le> - 1 \<and> (- 1::int) < 2
   \<and> ''sum'' \<noteq> ''mean''
   \<and> cross_entropy_loss \<lparr>ncols = 2, rows = [[0, 1]]\<rparr> \<lparr>ncols = 2, rows = [[1 / 2, 1 / 2]]\<rparr>
         (- 1) ''sum'' = Inl ValueError
   \<and> \<not> isl (cross_entropy_loss \<lparr>ncols = 2, rows = [[0, 1]]\<rparr>
              \<lparr>ncols = 2, rows = [[1 / 2, 1 / 2]]\<rparr> (- 1) ''mean'')"
proof -
  let ?l = "\<lparr>ncols = 2, rows = [[0, 1]]\<rparr>"
  let ?p = "\<lparr>ncols = 2, rows = [[1 / 2, 1 / 2]]\<rparr>"
  have shape: "nrows ?p = nrows ?l" "ncols ?p = ncols ?l"
    by (simp_all add: nrows_def)
  have ax: "(- 2::int) \<le> - 1" "(- 1::int) < 2" by simp_all
  have ne: "''sum'' \<noteq> ''mean''" by simp
  from cross_entropy_loss_raises_iff_not_mean [OF shape ax, of "''sum''"] ne
  have a: "cross_entropy_loss ?l ?p (- 1) ''sum'' = Inl ValueError" by blast
  from cross_entropy_loss_raises_iff_not_mean [OF shape ax, of "''mean''"]
  have b: "\<not> isl (cross_entropy_loss ?l ?p (- 1) ''mean'')" by blast
  from shape ax ne a b show ?thesis by blast
qed

end
